theory Spec2Isabelle
  imports Main
begin

section \<open>The page-scraping tracker (x\_web\_tracker/tracker.py)\<close>

text \<open>
  One run of the script reads \<^verbatim>\<open>last_id.txt\<close>, scrapes the
  profile page, posts the new tweets to the Telegram Bot API and rewrites
  \<^verbatim>\<open>last_id.txt\<close>. The page scraper and the HTTP transport are
  outside the program: the scraped list of tweets (newest first, empty when scraping
  failed) and the outcome of every POST are inputs of the model. Strings are lists of
  bytes of the UTF-8 text. Console output is not modelled.
\<close>

record tweet =
  tweet_id :: string
  tweet_url :: string
  tweet_text :: string

text \<open>What \<^verbatim>\<open>requests.post\<close> does: it returns a response with a status code and a body,
  or raises \<^verbatim>\<open>requests.RequestException\<close>.\<close>

datatype post_result = Response nat string | RequestException string

text \<open>The world one run acts on: the content of \<^verbatim>\<open>last_id.txt\<close> (\<open>None\<close> when the
  file does not exist), the texts passed to the Bot API so far, in call order, and those
  among them that were answered with status 200.\<close>

record web_world =
  last_id_file :: "string option"
  requests :: "string list"
  delivered :: "string list"

text \<open>\<^verbatim>\<open>read_last_id\<close> goes through the text layer of Python, which is taken as given:
  \<open>read_text\<close> is what \<^verbatim>\<open>Path.read_text(encoding="utf-8")\<close> returns for a stored
  content (the decoded text, every line ending turned into a line feed) or the
  \<^verbatim>\<open>UnicodeDecodeError\<close> it raises, and \<open>strip\<close> is \<^verbatim>\<open>str.strip()\<close>, which
  removes the whitespace at both ends.  Every statement about \<^verbatim>\<open>read_last_id\<close> holds
  for each such pair of functions.\<close>

datatype read_error = UnicodeDecodeError

record text_layer =
  read_text :: "string \<Rightarrow> read_error + string"
  strip :: "string \<Rightarrow> string"

text \<open>\<^verbatim>\<open>read_last_id\<close>: \<^verbatim>\<open>None\<close> when the file does not exist; otherwise the
  stripped text of the file, or \<^verbatim>\<open>None\<close> when that is empty.\<close>

definition read_last_id :: "text_layer \<Rightarrow> web_world \<Rightarrow> read_error + string option" where
  "read_last_id py w =
     (case last_id_file w of
        None \<Rightarrow> Inr None
      | Some stored \<Rightarrow>
          (case read_text py stored of
             Inl e \<Rightarrow> Inl e
           | Inr decoded \<Rightarrow>
               (let content = strip py decoded
                in Inr (if content = [] then None else Some content))))"

definition write_last_id :: "string \<Rightarrow> web_world \<Rightarrow> web_world" where
  "write_last_id tweet_id' w = w\<lparr>last_id_file := Some tweet_id'\<rparr>"

text \<open>\<^verbatim>\<open>send_to_telegram\<close>: the POST is made; a status other than 200 and a
  \<^verbatim>\<open>RequestException\<close> are printed and nothing is raised.  The outcome of the POST is
  \<open>post k text\<close>, where \<open>k\<close> counts the POSTs made before this one.\<close>

definition send_to_telegram :: "(nat \<Rightarrow> string \<Rightarrow> post_result) \<Rightarrow> string \<Rightarrow> web_world \<Rightarrow> web_world" where
  "send_to_telegram post text' w =
     (case post (length (requests w)) text' of
        Response status_code body \<Rightarrow>
          (if status_code \<noteq> 200
           then w\<lparr>requests := requests w @ [text']\<rparr>
           else w\<lparr>requests := requests w @ [text'], delivered := delivered w @ [text']\<rparr>)
      | RequestException exc \<Rightarrow> w\<lparr>requests := requests w @ [text']\<rparr>)"

text \<open>The message of lines 167-169: the words \<^verbatim>\<open>New tweet from\<close>, an at sign, the
  username and a colon; on the next line the url of the tweet; after an empty line its
  text.\<close>

definition message :: "string \<Rightarrow> tweet \<Rightarrow> string" where
  "message username tw =
     ''New tweet from @'' @ username @ '':'' @ [CHR 0x0A] @ tweet_url tw
       @ [CHR 0x0A, CHR 0x0A] @ tweet_text tw"

text \<open>The scan of lines 156-160: \<open>new_tweets\<close> grows at its end until a tweet carries the
  last seen id, where the loop breaks.\<close>

fun collect_new :: "string \<Rightarrow> tweet list \<Rightarrow> tweet list \<Rightarrow> tweet list" where
  "collect_new last_seen_id [] new_tweets = new_tweets"
| "collect_new last_seen_id (tw # rest) new_tweets =
     (if tweet_id tw = last_seen_id then new_tweets
      else collect_new last_seen_id rest (new_tweets @ [tw]))"

text \<open>The sending loop of lines 166-174 over the already reversed list.\<close>

fun send_each :: "(nat \<Rightarrow> string \<Rightarrow> post_result) \<Rightarrow> string \<Rightarrow> tweet list \<Rightarrow> web_world \<Rightarrow> web_world" where
  "send_each post username [] w = w"
| "send_each post username (tw # rest) w =
     send_each post username rest (send_to_telegram post (message username tw) w)"

text \<open>Lines 145-177 of \<^verbatim>\<open>main\<close>, with \<open>last_seen_id\<close> and \<open>tweets\<close> as they stand
  after lines 142 and 144.\<close>

definition main_after_fetch ::
  "(nat \<Rightarrow> string \<Rightarrow> post_result) \<Rightarrow> string \<Rightarrow> string option \<Rightarrow> tweet list \<Rightarrow> web_world \<Rightarrow> web_world" where
  "main_after_fetch post username last_seen_id tweets w =
     (case tweets of
        [] \<Rightarrow> w
      | newest # older \<Rightarrow>
          (let newest_id = tweet_id newest in
           case last_seen_id of
             None \<Rightarrow> write_last_id newest_id w
           | Some seen \<Rightarrow>
               (let new_tweets = collect_new seen tweets [] in
                write_last_id newest_id
                  (if new_tweets = [] then w
                   else send_each post username (rev new_tweets) w))))"

definition main ::
  "text_layer \<Rightarrow> (nat \<Rightarrow> string \<Rightarrow> post_result) \<Rightarrow> string \<Rightarrow> tweet list \<Rightarrow> web_world
     \<Rightarrow> read_error + web_world" where
  "main py post username tweets w =
     (case read_last_id py w of
        Inl e \<Rightarrow> Inl e
      | Inr last_seen_id \<Rightarrow> Inr (main_after_fetch post username last_seen_id tweets w))"

text \<open>Successive runs of the script, one scraped page per run.  A run that is left by the
  exception of \<^verbatim>\<open>read_last_id\<close> has touched nothing, and the next run starts from the
  same world.\<close>

fun main_runs ::
  "text_layer \<Rightarrow> (nat \<Rightarrow> string \<Rightarrow> post_result) \<Rightarrow> string \<Rightarrow> tweet list list \<Rightarrow> web_world
     \<Rightarrow> web_world" where
  "main_runs py post username [] w = w"
| "main_runs py post username (tweets # later) w =
     main_runs py post username later
       (case main py post username tweets w of Inl e \<Rightarrow> w | Inr w' \<Rightarrow> w')"

text \<open>Position of the first item carrying an id in a fetched page, and the order the fetch
  gives to two ids: \<open>x\<close> is earlier in fetch order than \<open>y\<close> when both are on the page and
  \<open>x\<close> first shows up further down the newest-first page than \<open>y\<close> does.\<close>

fun first_index :: "('t \<Rightarrow> string) \<Rightarrow> string \<Rightarrow> 't list \<Rightarrow> nat option" where
  "first_index ident x [] = None"
| "first_index ident x (t # ts) =
     (if ident t = x then Some 0
      else (case first_index ident x ts of None \<Rightarrow> None | Some i \<Rightarrow> Some (Suc i)))"

definition earlier_in_fetch_order :: "('t \<Rightarrow> string) \<Rightarrow> 't list \<Rightarrow> string \<Rightarrow> string \<Rightarrow> bool" where
  "earlier_in_fetch_order ident page x y =
     (case (first_index ident x page, first_index ident y page) of
        (Some i, Some j) \<Rightarrow> j < i
      | _ \<Rightarrow> False)"

section \<open>The API tracker (src/x\_tracker/tracker.py)\<close>

text \<open>
  \<^verbatim>\<open>ActivityTracker\<close> keeps one optional tweet id per configured
  account in memory and in a JSON file. The X API and the Telegram Bot API are outside
  the program: what they answer during one cycle is an input of the model. An exception
  raised by a call is the \<open>Inl\<close> (or \<open>Some\<close>) branch of its
  result. The JSON text of the state file is not modelled: a file that parses holds the
  mapping that \<^verbatim>\<open>json.load\<close> returns.
\<close>

datatype error = RuntimeError string | RequestError string | JSONDecodeError

record api_tweet =
  api_id :: string
  api_text :: string

text \<open>The answers of one cycle: \<^verbatim>\<open>XClient.get_user_id\<close> per username, the tweets
  endpoint per user id and \<^verbatim>\<open>since_id\<close> parameter (\<open>None\<close> when the parameter is not
  sent), and \<^verbatim>\<open>TelegramNotifier.send_message\<close> per message, where the first argument
  counts the messages passed to the notifier before.\<close>

record services =
  get_user_id :: "string \<Rightarrow> error + string"
  user_tweets :: "string \<Rightarrow> string option \<Rightarrow> error + api_tweet list"
  send_message :: "nat \<Rightarrow> string \<Rightarrow> error option"

text \<open>\<^verbatim>\<open>XClient.fetch_latest_tweets\<close>: the \<^verbatim>\<open>since_id\<close> parameter is sent only when the
  argument is truthy, that is neither \<^verbatim>\<open>None\<close> nor the empty string.\<close>

definition fetch_latest_tweets :: "services \<Rightarrow> string \<Rightarrow> string option \<Rightarrow> error + api_tweet list" where
  "fetch_latest_tweets api user_id since_id =
     user_tweets api user_id
       (case since_id of None \<Rightarrow> None | Some s \<Rightarrow> if s = [] then None else Some s)"

text \<open>The state file: absent, present with a content that \<^verbatim>\<open>json.load\<close> rejects (an empty
  or partly written file among others), or present with a JSON object of strings and
  nulls.\<close>

datatype state_file = Missing | Unparseable | Stored "string \<rightharpoonup> string option"

record tracker =
  accounts :: "string list"
  state :: "string \<rightharpoonup> string option"

text \<open>What the tracker acts on: whether the parent directory of the state file exists,
  the state file, and the messages passed to the notifier so far, in call order.\<close>

record world =
  parent_dir :: bool
  disk :: state_file
  outbox :: "string list"

text \<open>\<^verbatim>\<open>dict.get(key)\<close>: \<^verbatim>\<open>None\<close> for a missing key and for a key bound to \<^verbatim>\<open>None\<close>.\<close>

definition dict_get :: "(string \<rightharpoonup> string option) \<Rightarrow> string \<Rightarrow> string option" where
  "dict_get d k = (case d k of None \<Rightarrow> None | Some v \<Rightarrow> v)"

text \<open>The dict comprehension \<^verbatim>\<open>{account: f(account) for account in accounts}\<close>.\<close>

fun dict_of :: "(string \<Rightarrow> string option) \<Rightarrow> string list \<Rightarrow> (string \<rightharpoonup> string option) \<Rightarrow> (string \<rightharpoonup> string option)" where
  "dict_of f [] d = d"
| "dict_of f (account # rest) d = dict_of f rest (d(account \<mapsto> f account))"

definition load_state :: "string list \<Rightarrow> world \<Rightarrow> error + (string \<rightharpoonup> string option)" where
  "load_state accs w =
     (case disk w of
        Stored stored \<Rightarrow> Inr (dict_of (dict_get stored) accs Map.empty)
      | Unparseable \<Rightarrow> Inl JSONDecodeError
      | Missing \<Rightarrow> Inr (dict_of (\<lambda>account. None) accs Map.empty))"

text \<open>\<^verbatim>\<open>ActivityTracker.__init__\<close>.\<close>

definition new_tracker :: "string list \<Rightarrow> world \<Rightarrow> error + tracker" where
  "new_tracker accs w =
     (case load_state accs w of
        Inl e \<Rightarrow> Inl e
      | Inr loaded \<Rightarrow> Inr \<lparr>accounts = accs, state = loaded\<rparr>)"

text \<open>The three statements of \<^verbatim>\<open>_persist_state\<close>, one step each:
  \<^verbatim>\<open>parent.mkdir(parents=True, exist_ok=True)\<close>; \<^verbatim>\<open>open("w")\<close>, which creates the file or
  truncates it to length zero; \<^verbatim>\<open>json.dump\<close> followed by the close of the handle.
  \<open>persist_state_steps\<close> lists the world after each step.\<close>

definition mkdir_parents :: "world \<Rightarrow> world" where
  "mkdir_parents w = w\<lparr>parent_dir := True\<rparr>"

definition open_for_writing :: "world \<Rightarrow> world" where
  "open_for_writing w = w\<lparr>disk := Unparseable\<rparr>"

definition json_dump :: "(string \<rightharpoonup> string option) \<Rightarrow> world \<Rightarrow> world" where
  "json_dump d w = w\<lparr>disk := Stored d\<rparr>"

definition persist_state_steps :: "tracker \<Rightarrow> world \<Rightarrow> world list" where
  "persist_state_steps t w =
     (let w1 = mkdir_parents w;
          w2 = open_for_writing w1;
          w3 = json_dump (state t) w2
      in [w1, w2, w3])"

definition persist_state :: "tracker \<Rightarrow> world \<Rightarrow> world" where
  "persist_state t w = json_dump (state t) (open_for_writing (mkdir_parents w))"

text \<open>The two literal pieces of \<^verbatim>\<open>_format_message\<close>, byte for byte as the source file has
  them.\<close>

definition headline :: string where
  "headline = [CHR 0xC3, CHR 0xB0, CHR 0xC5, CHR 0xB8, CHR 0xC2, CHR 0xA7, CHR 0xC2, CHR 0xAD, CHR 0x20, CHR 0xC3, CHR 0x90, CHR 0xC3, CHR 0x90, CHR 0xC2, CHR 0xBE, CHR 0xC3, CHR 0x90, CHR 0xC2, CHR 0xB2, CHR 0xC3, CHR 0x90, CHR 0xC2, CHR 0xB0, CHR 0xC3, CHR 0x91, CHR 0x20, CHR 0xC3, CHR 0x90, CHR 0xC2, CHR 0xB0, CHR 0xC3, CHR 0x90, CHR 0xC2, CHR 0xBA, CHR 0xC3, CHR 0x91, CHR 0xE2, CHR 0x80, CHR 0x9A, CHR 0xC3, CHR 0x90, CHR 0xC2, CHR 0xB8, CHR 0xC3, CHR 0x90, CHR 0xC2, CHR 0xB2, CHR 0xC3, CHR 0x90, CHR 0xC2, CHR 0xBD, CHR 0xC3, CHR 0x90, CHR 0xC2, CHR 0xBE, CHR 0xC3, CHR 0x91, CHR 0xC3, CHR 0x91, CHR 0xE2, CHR 0x80, CHR 0x9A, CHR 0xC3, CHR 0x91, CHR 0xC5, CHR 0x92, CHR 0x20, CHR 0x40]"

definition link_label :: string where
  "link_label = [CHR 0xC3, CHR 0x90, CHR 0xC2, CHR 0xA1, CHR 0xC3, CHR 0x91, CHR 0xC3, CHR 0x91, CHR 0xE2, CHR 0x80, CHR 0xB9, CHR 0xC3, CHR 0x90, CHR 0xC2, CHR 0xBB, CHR 0xC3, CHR 0x90, CHR 0xC2, CHR 0xBA, CHR 0xC3, CHR 0x90, CHR 0xC2, CHR 0xB0, CHR 0x3A, CHR 0x20]"

definition format_message :: "string \<Rightarrow> api_tweet \<Rightarrow> string" where
  "format_message username tw =
     (let link = ''https://twitter.com/'' @ username @ ''/status/'' @ api_id tw
      in headline @ username @ [CHR 0x0A] @ api_text tw @ [CHR 0x0A, CHR 0x0A]
           @ link_label @ link)"

text \<open>The loop of \<^verbatim>\<open>_notify\<close> over a list already in sending order: a message is passed
  to the notifier; when the notifier raises, the loop and the caller are left.\<close>

fun notify_each :: "services \<Rightarrow> string \<Rightarrow> api_tweet list \<Rightarrow> world \<Rightarrow> error option \<times> world" where
  "notify_each api username [] w = (None, w)"
| "notify_each api username (tw # rest) w =
     (let msg = format_message username tw;
          w' = w\<lparr>outbox := outbox w @ [msg]\<rparr>
      in case send_message api (length (outbox w)) msg of
           Some e \<Rightarrow> (Some e, w')
         | None \<Rightarrow> notify_each api username rest w')"

definition notify :: "services \<Rightarrow> string \<Rightarrow> api_tweet list \<Rightarrow> world \<Rightarrow> error option \<times> world" where
  "notify api username tweets w = notify_each api username (rev tweets) w"

text \<open>The body of the loop of \<^verbatim>\<open>check_once\<close> for one username.\<close>

definition check_account :: "services \<Rightarrow> string \<Rightarrow> tracker \<times> world \<Rightarrow> error option \<times> tracker \<times> world" where
  "check_account api username tw =
     (case tw of (t, w) \<Rightarrow>
        (case get_user_id api username of
           Inl e \<Rightarrow> (Some e, t, w)
         | Inr user_id \<Rightarrow>
             (let since_id = dict_get (state t) username in
              case fetch_latest_tweets api user_id since_id of
                Inl e \<Rightarrow> (Some e, t, w)
              | Inr tweets \<Rightarrow>
                  (case tweets of
                     [] \<Rightarrow> (None, t, w)
                   | newest # older \<Rightarrow>
                       (let t' = t\<lparr>state := (state t)(username \<mapsto> Some (api_id newest))\<rparr>
                        in case notify api username tweets w of
                             (r, w') \<Rightarrow> (r, t', w'))))))"

fun check_accounts :: "services \<Rightarrow> string list \<Rightarrow> tracker \<times> world \<Rightarrow> error option \<times> tracker \<times> world" where
  "check_accounts api [] tw = (None, tw)"
| "check_accounts api (username # rest) tw =
     (case check_account api username tw of
        (Some e, tw') \<Rightarrow> (Some e, tw')
      | (None, tw') \<Rightarrow> check_accounts api rest tw')"

text \<open>\<^verbatim>\<open>check_once\<close>: the state is persisted after the loop; an exception raised in the loop
  leaves \<^verbatim>\<open>check_once\<close> before that.\<close>

definition check_once :: "services \<Rightarrow> tracker \<times> world \<Rightarrow> error option \<times> tracker \<times> world" where
  "check_once api tw =
     (case check_accounts api (accounts (fst tw)) tw of
        (Some e, tw') \<Rightarrow> (Some e, tw')
      | (None, t', w') \<Rightarrow> (None, t', persist_state t' w'))"

text \<open>\<^verbatim>\<open>run\<close> repeats \<^verbatim>\<open>check_once\<close> for ever and catches nothing: it is left by the first
  exception only.  \<open>run\<close> gives the outcome of a finite number of cycles, one record of
  answers per cycle.\<close>

fun run :: "services list \<Rightarrow> tracker \<times> world \<Rightarrow> error option \<times> tracker \<times> world" where
  "run [] tw = (None, tw)"
| "run (api # later) tw =
     (case check_once api tw of
        (Some e, tw') \<Rightarrow> (Some e, tw')
      | (None, tw') \<Rightarrow> run later tw')"

section \<open>Concrete inputs\<close>

text \<open>Tweets, worlds and service answers used where a statement is evaluated on a
  concrete run.\<close>

definition sample_tweet :: "string \<Rightarrow> tweet" where
  "sample_tweet i =
     \<lparr>tweet_id = i, tweet_url = ''https://x.com/user/status/'' @ i, tweet_text = ''post '' @ i\<rparr>"

definition web_start :: "string option \<Rightarrow> web_world" where
  "web_start content = \<lparr>last_id_file = content, requests = [], delivered = []\<rparr>"

text \<open>The answers of the text layer on the file contents used below, which are single
  ASCII letters: Python decodes such a content as it stands and finds no whitespace to
  strip.  \<open>plain_text\<close> stands for Python's text layer on such contents only.\<close>

definition plain_text :: text_layer where
  "plain_text = \<lparr>read_text = (\<lambda>stored. Inr stored), strip = (\<lambda>decoded. decoded)\<rparr>"

definition telegram_up :: "nat \<Rightarrow> string \<Rightarrow> post_result" where
  "telegram_up k m = Response 200 ''ok''"

definition telegram_down :: "nat \<Rightarrow> string \<Rightarrow> post_result" where
  "telegram_down k m = RequestException ''connection refused''"

definition sample_api_tweet :: "string \<Rightarrow> api_tweet" where
  "sample_api_tweet i = \<lparr>api_id = i, api_text = ''post '' @ i\<rparr>"

definition start_world :: "state_file \<Rightarrow> world" where
  "start_world f = \<lparr>parent_dir = True, disk = f, outbox = []\<rparr>"

text \<open>Every call answers: each user has the tweets c, b, a (newest first) when no
  \<^verbatim>\<open>since_id\<close> is sent and none after any \<^verbatim>\<open>since_id\<close>.\<close>

definition all_up :: services where
  "all_up =
     \<lparr>get_user_id = (\<lambda>username. Inr (''id-of-'' @ username)),
      user_tweets = (\<lambda>user_id since_id.
         case since_id of
           None \<Rightarrow> Inr [sample_api_tweet ''c'', sample_api_tweet ''b'', sample_api_tweet ''a'']
         | Some s \<Rightarrow> Inr []),
      send_message = (\<lambda>k m. None)\<rparr>"


text \<open>As \<open>all_up\<close>, but the notifier raises on the second message passed to it.\<close>

definition second_send_fails :: services where
  "second_send_fails =
     all_up\<lparr>send_message := (\<lambda>k m.
        if k = 1 then Some (RuntimeError ''Telegram send failed (500)'') else None)\<rparr>"

text \<open>A tracker constructed where no state file exists, and the tracker holding the
  snapshot \<^verbatim>\<open>{"acct1": "100", "acct2": null}\<close>.\<close>

definition fresh_tracker :: "string list \<Rightarrow> tracker" where
  "fresh_tracker accs = \<lparr>accounts = accs, state = dict_of (\<lambda>account. None) accs Map.empty\<rparr>"

definition snapshot_tracker :: tracker where
  "snapshot_tracker =
     \<lparr>accounts = [''acct1'', ''acct2''],
      state = [''acct1'' \<mapsto> Some ''100'', ''acct2'' \<mapsto> None]\<rparr>"

text \<open>A world whose state file still holds an id for the account \<open>gone\<close>, which is no
  longer configured.\<close>

definition stale_world :: world where
  "stale_world = start_world (Stored [''gone'' \<mapsto> Some ''7'', ''user'' \<mapsto> Some ''5''])"

section \<open>Facts about the page-scraping tracker\<close>

lemma collect_new_takeWhile:
  "collect_new seen tweets acc = acc @ takeWhile (\<lambda>tw. tweet_id tw \<noteq> seen) tweets"
  by (induction tweets arbitrary: acc) auto

lemma send_to_telegram_requests [simp]:
  "requests (send_to_telegram post m w) = requests w @ [m]"
  by (simp add: send_to_telegram_def split: post_result.splits)

lemma send_to_telegram_last_id [simp]:
  "last_id_file (send_to_telegram post m w) = last_id_file w"
  by (simp add: send_to_telegram_def split: post_result.splits)

lemma send_each_requests:
  "requests (send_each post username tws w) = requests w @ map (message username) tws"
  by (induction tws arbitrary: w) auto

lemma send_each_last_id:
  "last_id_file (send_each post username tws w) = last_id_file w"
  by (induction tws arbitrary: w) auto

lemma main_after_fetch_requests:
  "requests (main_after_fetch post username (Some seen) tweets w)
     = requests w @ map (message username) (rev (collect_new seen tweets []))"
  by (cases tweets) (auto simp: main_after_fetch_def write_last_id_def Let_def send_each_requests)

lemma main_after_fetch_last_id:
  "last_id_file (main_after_fetch post username last_seen_id tweets w)
     = (case tweets of [] \<Rightarrow> last_id_file w | newest # older \<Rightarrow> Some (tweet_id newest))"
  by (cases tweets; cases last_seen_id) (auto simp: main_after_fetch_def write_last_id_def Let_def)


lemma main_returned:
  "main py post username tweets w = Inr w' \<Longrightarrow>
     \<exists>last_seen_id. read_last_id py w = Inr last_seen_id
        \<and> w' = main_after_fetch post username last_seen_id tweets w"
  by (cases "read_last_id py w") (auto simp: main_def)

lemma main_runs_append:
  "main_runs py post username (before @ [page]) w =
     (case main py post username page (main_runs py post username before w) of
        Inl e \<Rightarrow> main_runs py post username before w
      | Inr w' \<Rightarrow> w')"
  by (induction before arbitrary: w) (auto split: sum.splits)

lemma not_earlier_self:
  "\<not> earlier_in_fetch_order ident page x x"
  by (simp add: earlier_in_fetch_order_def split: option.splits)

lemma not_earlier_than_head:
  "\<not> earlier_in_fetch_order ident (t # ts) (ident t) y"
  by (simp add: earlier_in_fetch_order_def split: option.splits)

lemma not_earlier_empty:
  "\<not> earlier_in_fetch_order ident [] x y"
  by (simp add: earlier_in_fetch_order_def)




section \<open>Facts about the API tracker\<close>

lemma dict_of_apply:
  "dict_of f accs d a = (if a \<in> set accs then Some (f a) else d a)"
  by (induction accs arbitrary: d) auto

lemma dom_dict_of: "dom (dict_of f accs d) = dom d \<union> set accs"
  by (auto simp: dict_of_apply dom_def)

lemma dict_of_roundtrip:
  assumes "dom st = set accs"
  shows "dict_of (dict_get st) accs Map.empty = st"
proof (rule ext)
  fix a
  show "dict_of (dict_get st) accs Map.empty a = st a"
  proof (cases "a \<in> set accs")
    case True
    with assms obtain v where "st a = Some v" by auto
    with True show ?thesis by (simp add: dict_of_apply dict_get_def)
  next
    case False
    with assms have "st a = None" by auto
    with False show ?thesis by (simp add: dict_of_apply)
  qed
qed

lemma persist_state_disk [simp]: "disk (persist_state t w) = Stored (state t)"
  by (simp add: persist_state_def json_dump_def)

lemma persist_state_outbox [simp]: "outbox (persist_state t w) = outbox w"
  by (simp add: persist_state_def json_dump_def open_for_writing_def mkdir_parents_def)

lemma persist_state_parent [simp]: "parent_dir (persist_state t w)"
  by (simp add: persist_state_def json_dump_def open_for_writing_def mkdir_parents_def)

lemma load_state_keys:
  assumes "load_state accs w = Inr loaded"
  shows "dom loaded = set accs"
proof -
  from assms obtain f where "loaded = dict_of f accs Map.empty"
    by (cases "disk w") (auto simp: load_state_def)
  then show ?thesis by (simp add: dom_dict_of)
qed

lemma new_tracker_keys:
  assumes "new_tracker accs w = Inr t"
  shows "accounts t = accs \<and> dom (state t) = set accs"
proof (cases "load_state accs w")
  case (Inl e)
  with assms show ?thesis by (simp add: new_tracker_def)
next
  case (Inr loaded)
  with assms have "t = \<lparr>accounts = accs, state = loaded\<rparr>" by (simp add: new_tracker_def)
  with load_state_keys[OF Inr] show ?thesis by simp
qed

lemma notify_each_world:
  "notify_each api username tws w = (r, w') \<Longrightarrow>
     disk w' = disk w \<and> parent_dir w' = parent_dir w
     \<and> (\<exists>n. outbox w' = outbox w @ take n (map (format_message username) tws))"
proof (induction tws arbitrary: w)
  case Nil
  then show ?case by simp
next
  case (Cons tw rest)
  let ?m = "format_message username tw"
  let ?w1 = "w\<lparr>outbox := outbox w @ [?m]\<rparr>"
  show ?case
  proof (cases "send_message api (length (outbox w)) ?m")
    case (Some e)
    with Cons.prems have "w' = ?w1" by (simp add: Let_def)
    then have "outbox w' = outbox w @ take 1 (map (format_message username) (tw # rest))" by simp
    with \<open>w' = ?w1\<close> show ?thesis by (intro conjI exI[of _ 1]) simp_all
  next
    case None
    with Cons.prems have "notify_each api username rest ?w1 = (r, w')" by (simp add: Let_def)
    from Cons.IH[OF this] obtain n where
      a: "disk w' = disk w" "parent_dir w' = parent_dir w"
         "outbox w' = outbox w @ ?m # take n (map (format_message username) rest)" by auto
    then have "outbox w' = outbox w @ take (Suc n) (map (format_message username) (tw # rest))" by simp
    with a show ?thesis by blast
  qed
qed

lemma notify_each_all_sent:
  "(\<And>k m. send_message api k m = None) \<Longrightarrow>
     notify_each api username tws w = (None, w\<lparr>outbox := outbox w @ map (format_message username) tws\<rparr>)"
  by (induction tws arbitrary: w) (auto simp: Let_def)

lemma check_account_cases:
  assumes "check_account api username (t, w) = (r, t', w')"
  shows "(t' = t \<and> w' = w)
       \<or> (\<exists>user_id newest older.
             get_user_id api username = Inr user_id
           \<and> fetch_latest_tweets api user_id (dict_get (state t) username) = Inr (newest # older)
           \<and> t' = t\<lparr>state := (state t)(username \<mapsto> Some (api_id newest))\<rparr>
           \<and> notify api username (newest # older) w = (r, w'))"
proof (cases "get_user_id api username")
  case (Inl e)
  with assms show ?thesis by (simp add: check_account_def)
next
  case (Inr user_id)
  note uid = this
  show ?thesis
  proof (cases "fetch_latest_tweets api user_id (dict_get (state t) username)")
    case (Inl e)
    with assms uid show ?thesis by (simp add: check_account_def)
  next
    case (Inr tweets)
    show ?thesis
    proof (cases tweets)
      case Nil
      with assms uid Inr show ?thesis by (simp add: check_account_def)
    next
      case (Cons newest older)
      with assms uid Inr show ?thesis
        by (auto simp: check_account_def split: prod.splits)
    qed
  qed
qed

lemma notify_world:
  "notify api username tws w = (r, w') \<Longrightarrow> disk w' = disk w \<and> parent_dir w' = parent_dir w"
  unfolding notify_def by (drule notify_each_world) simp

lemma check_account_accounts:
  "check_account api username (t, w) = (r, t', w') \<Longrightarrow> accounts t' = accounts t"
  by (drule check_account_cases) auto

lemma check_account_disk:
  "check_account api username (t, w) = (r, t', w') \<Longrightarrow> disk w' = disk w \<and> parent_dir w' = parent_dir w"
  by (drule check_account_cases) (auto dest: notify_world)

lemma check_account_dom:
  "check_account api username (t, w) = (r, t', w') \<Longrightarrow> username \<in> dom (state t) \<Longrightarrow>
     dom (state t') = dom (state t)"
  by (drule check_account_cases) (elim disjE exE conjE, simp, simp add: insert_absorb)

lemma check_account_present:
  "check_account api username (t, w) = (r, t', w') \<Longrightarrow> dict_get (state t) a = Some old \<Longrightarrow>
     \<exists>new. dict_get (state t') a = Some new"
  by (drule check_account_cases) (auto simp: dict_get_def)

lemma check_accounts_inv:
  "check_accounts api usernames (t, w) = (r, t', w') \<Longrightarrow> set usernames \<subseteq> dom (state t) \<Longrightarrow>
     accounts t' = accounts t \<and> dom (state t') = dom (state t)
     \<and> disk w' = disk w \<and> parent_dir w' = parent_dir w"
proof (induction usernames arbitrary: t w)
  case Nil
  then show ?case by simp
next
  case (Cons username rest)
  obtain r1 t1 w1 where step: "check_account api username (t, w) = (r1, t1, w1)"
    by (cases "check_account api username (t, w)") auto
  have mem: "username \<in> dom (state t)" using Cons.prems(2) by simp
  note a = check_account_accounts[OF step] check_account_disk[OF step] check_account_dom[OF step mem]
  show ?case
  proof (cases r1)
    case (Some e)
    with Cons.prems(1) step have "t' = t1" "w' = w1" by simp_all
    with a show ?thesis by simp
  next
    case None
    with Cons.prems(1) step have rest: "check_accounts api rest (t1, w1) = (r, t', w')" by simp
    have "set rest \<subseteq> dom (state t1)" using Cons.prems(2) a by simp
    from Cons.IH[OF rest this] a show ?thesis by simp
  qed
qed

lemma check_accounts_present:
  "check_accounts api usernames (t, w) = (r, t', w') \<Longrightarrow> dict_get (state t) a = Some old \<Longrightarrow>
     \<exists>new. dict_get (state t') a = Some new"
proof (induction usernames arbitrary: t w old)
  case Nil
  then show ?case by simp
next
  case (Cons username rest)
  obtain r1 t1 w1 where step: "check_account api username (t, w) = (r1, t1, w1)"
    by (cases "check_account api username (t, w)") auto
  from check_account_present[OF step Cons.prems(2)] obtain mid where
    mid: "dict_get (state t1) a = Some mid" by blast
  show ?case
  proof (cases r1)
    case (Some e)
    with Cons.prems(1) step have "t' = t1" by simp
    with mid show ?thesis by simp
  next
    case None
    with Cons.prems(1) step have "check_accounts api rest (t1, w1) = (r, t', w')" by simp
    from Cons.IH[OF this mid] show ?thesis .
  qed
qed

lemma check_once_cases:
  assumes "check_once api (t, w) = (r, t', w')"
  shows "(\<exists>e. r = Some e \<and> check_accounts api (accounts t) (t, w) = (Some e, t', w'))
       \<or> (\<exists>w1. r = None \<and> check_accounts api (accounts t) (t, w) = (None, t', w1)
                 \<and> w' = persist_state t' w1)"
proof -
  obtain r1 t1 w1 where c: "check_accounts api (accounts t) (t, w) = (r1, t1, w1)"
    by (cases "check_accounts api (accounts t) (t, w)") auto
  show ?thesis
  proof (cases r1)
    case None
    with assms c show ?thesis by (auto simp: check_once_def)
  next
    case (Some e)
    with assms c show ?thesis by (auto simp: check_once_def)
  qed
qed

lemma check_once_keys:
  "check_once api (t, w) = (r, t', w') \<Longrightarrow> dom (state t) = set (accounts t) \<Longrightarrow>
     accounts t' = accounts t \<and> dom (state t') = set (accounts t')"
proof -
  assume run: "check_once api (t, w) = (r, t', w')" and keys: "dom (state t) = set (accounts t)"
  from check_once_cases[OF run] obtain r1 w1 where
    "check_accounts api (accounts t) (t, w) = (r1, t', w1)" by blast
  from check_accounts_inv[OF this] keys show ?thesis by simp
qed

lemma check_once_present:
  "check_once api (t, w) = (r, t', w') \<Longrightarrow> dict_get (state t) a = Some old \<Longrightarrow>
     \<exists>new. dict_get (state t') a = Some new"
  by (drule check_once_cases) (auto dest: check_accounts_present)

lemma run_present:
  "run cycles (t, w) = (r, t', w') \<Longrightarrow> dict_get (state t) a = Some old \<Longrightarrow>
     \<exists>new. dict_get (state t') a = Some new"
proof (induction cycles arbitrary: t w old)
  case Nil
  then show ?case by simp
next
  case (Cons api later)
  obtain r1 t1 w1 where step: "check_once api (t, w) = (r1, t1, w1)"
    by (cases "check_once api (t, w)") auto
  from check_once_present[OF step Cons.prems(2)] obtain mid where
    mid: "dict_get (state t1) a = Some mid" by blast
  show ?case
  proof (cases r1)
    case (Some e)
    with Cons.prems(1) step have "t' = t1" by simp
    with mid show ?thesis by simp
  next
    case None
    with Cons.prems(1) step have "run later (t1, w1) = (r, t', w')" by simp
    from Cons.IH[OF this mid] show ?thesis .
  qed
qed


lemma check_account_fetched:
  assumes "get_user_id api account = Inr user_id"
    and "fetch_latest_tweets api user_id (dict_get (state t) account) = Inr (first # rest)"
  shows "check_account api account (t, v)
         = (fst (notify api account (first # rest) v),
            t\<lparr>state := (state t)(account \<mapsto> Some (api_id first))\<rparr>,
            snd (notify api account (first # rest) v))"
  using assms by (simp add: check_account_def split: prod.splits)

lemma main_last_id:
  "main py post username (newest # older) w = Inr w' \<Longrightarrow> last_id_file w' = Some (tweet_id newest)"
  by (drule main_returned) (auto simp: main_after_fetch_last_id)


lemma run_keys:
  "run cycles (t, w) = (r, t', w') \<Longrightarrow> dom (state t) = set (accounts t) \<Longrightarrow>
     accounts t' = accounts t \<and> dom (state t') = set (accounts t')"
proof (induction cycles arbitrary: t w)
  case Nil
  then show ?case by simp
next
  case (Cons api later)
  obtain r1 t1 w1 where step: "check_once api (t, w) = (r1, t1, w1)"
    by (cases "check_once api (t, w)") auto
  from check_once_keys[OF step Cons.prems(2)]
  have k: "accounts t1 = accounts t" "dom (state t1) = set (accounts t1)" by simp_all
  show ?case
  proof (cases r1)
    case (Some e)
    with Cons.prems(1) step have "t' = t1" by simp
    with k show ?thesis by simp
  next
    case None
    with Cons.prems(1) step have "run later (t1, w1) = (r, t', w')" by simp
    from Cons.IH[OF this k(2)] k show ?thesis by simp
  qed
qed

section \<open>The claims\<close>





text \<open>
  C2. \<^verbatim>\<open>_persist_state\<close> creates the missing parent directory,
  opens the state file for writing in place and dumps the snapshot: on return the
  directory exists and the file holds the full snapshot. No temporary file and no rename
  are used: from the opening of the file until the dump is complete, the file a reader
  finds is empty or partly written.
\<close>

theorem persist_state_in_place:
  "persist_state t w = last (persist_state_steps t w)
   \<and> parent_dir (persist_state t w)
   \<and> disk (persist_state t w) = Stored (state t)
   \<and> outbox (persist_state t w) = outbox w
   \<and> map disk (persist_state_steps t w) = [disk w, Unparseable, Stored (state t)]"
  by (simp add: persist_state_def persist_state_steps_def mkdir_parents_def open_for_writing_def
      json_dump_def Let_def)

theorem persist_state_in_place_witness:
  "map disk (persist_state_steps snapshot_tracker (start_world Missing))
     = [Missing, Unparseable, Stored [''acct1'' \<mapsto> Some ''100'', ''acct2'' \<mapsto> None]]
   \<and> parent_dir (persist_state snapshot_tracker (start_world Missing))"
  using persist_state_in_place [where t = snapshot_tracker and w = "start_world Missing"]
  by (simp add: snapshot_tracker_def start_world_def persist_state_def persist_state_steps_def
      mkdir_parents_def open_for_writing_def json_dump_def Let_def)

text \<open>
  The atomic write that the specification states does not hold. A state file holds a
  snapshot; while the snapshot of another tracker is being saved, after the second
  statement of \<^verbatim>\<open>_persist_state\<close>, the file is neither snapshot,
  and a tracker constructed at that moment is left by the decoding error of
  \<^verbatim>\<open>json.load\<close>.
\<close>

theorem persist_state_counterexample:
  "disk stale_world = Stored [''gone'' \<mapsto> Some ''7'', ''user'' \<mapsto> Some ''5'']
   \<and> disk (persist_state_steps snapshot_tracker stale_world ! 1) = Unparseable
   \<and> load_state (accounts snapshot_tracker) (persist_state_steps snapshot_tracker stale_world ! 1)
       = Inl JSONDecodeError"
  by (simp add: persist_state_steps_def mkdir_parents_def open_for_writing_def json_dump_def
      load_state_def stale_world_def start_world_def Let_def)

text \<open>
  C3.  Scan-until-match in the page-scraping tracker, for every fetched page and every
  present last seen id: the new tweets are the tweets of the page before the first one
  that carries the last seen id, that one excluded; they are the whole page when no tweet
  carries it; and they are posted in reverse, oldest first.  The page e, d, c with the
  last seen id z gives the posts c, d, e.
\<close>

theorem scan_until_match:
  "collect_new seen tweets [] = takeWhile (\<lambda>tw. tweet_id tw \<noteq> seen) tweets
   \<and> (seen \<notin> tweet_id ` set tweets \<longrightarrow> collect_new seen tweets [] = tweets)
   \<and> (\<forall>before boundary after.
         tweets = before @ boundary # after \<and> tweet_id boundary = seen
           \<and> seen \<notin> tweet_id ` set before
         \<longrightarrow> collect_new seen tweets [] = before)
   \<and> requests (main_after_fetch post username (Some seen) tweets w)
       = requests w @ map (message username) (rev (collect_new seen tweets []))"
proof -
  have a: "collect_new seen tweets [] = takeWhile (\<lambda>tw. tweet_id tw \<noteq> seen) tweets"
    by (simp add: collect_new_takeWhile)
  have b: "seen \<notin> tweet_id ` set tweets \<longrightarrow> collect_new seen tweets [] = tweets"
    unfolding a by (auto intro: takeWhile_eq_all_conv[THEN iffD2])
  have c: "\<forall>before boundary after.
         tweets = before @ boundary # after \<and> tweet_id boundary = seen
           \<and> seen \<notin> tweet_id ` set before
         \<longrightarrow> collect_new seen tweets [] = before"
    unfolding a by (auto simp: takeWhile_append)
  show ?thesis using a b c main_after_fetch_requests by blast
qed

theorem scan_until_match_witness:
  "''z'' \<notin> tweet_id ` set [sample_tweet ''e'', sample_tweet ''d'', sample_tweet ''c'']
   \<and> collect_new ''z'' [sample_tweet ''e'', sample_tweet ''d'', sample_tweet ''c''] []
       = [sample_tweet ''e'', sample_tweet ''d'', sample_tweet ''c'']
   \<and> requests (main_after_fetch telegram_up ''user'' (Some ''z'')
         [sample_tweet ''e'', sample_tweet ''d'', sample_tweet ''c''] (web_start (Some ''z'')))
       = [message ''user'' (sample_tweet ''c''), message ''user'' (sample_tweet ''d''),
          message ''user'' (sample_tweet ''e'')]
   \<and> collect_new ''d'' [sample_tweet ''e'', sample_tweet ''d'', sample_tweet ''c''] []
       = [sample_tweet ''e'']"
  using scan_until_match [of "''z''" "[sample_tweet ''e'', sample_tweet ''d'', sample_tweet ''c'']"
      telegram_up "''user''" "web_start (Some ''z'')"]
    scan_until_match [of "''d''" "[sample_tweet ''e'', sample_tweet ''d'', sample_tweet ''c'']"
      telegram_up "''user''" "web_start (Some ''z'')"]
  by (simp add: sample_tweet_def web_start_def)

text \<open>
  C4.  On every cycle whose fetch returns a page with a newest tweet, the watermark is set
  to the id of that tweet, also when no tweet of the page is new.  Once a watermark is
  stored it is never absent again, and the id that replaces it is the first of the page
  fetched in that cycle, hence never an id that this page lists after the old watermark.
  A run of the page-scraping script that is left by \<^verbatim>\<open>read_last_id\<close> fetches nothing
  and stores nothing.  The code compares no ids: nothing keeps a later page with an older
  newest tweet from moving the watermark back.
\<close>

theorem watermark_set_to_newest:
  "last_id_file (main_after_fetch post username last_seen_id (newest # older) w)
     = Some (tweet_id newest)
   \<and> (main py post username (newest # older) w = Inr w'
      \<longrightarrow> last_id_file w' = Some (tweet_id newest))
   \<and> (last_id_file (main_runs py post username before w) = Some old
      \<longrightarrow> (\<exists>new. last_id_file (main_runs py post username (before @ [page]) w) = Some new
                \<and> \<not> earlier_in_fetch_order tweet_id page new old))
   \<and> (get_user_id api account = Inr user_id
        \<and> fetch_latest_tweets api user_id (dict_get (state t) account) = Inr (first # rest)
      \<longrightarrow> dict_get (state (fst (snd (check_account api account (t, v))))) account
              = Some (api_id first)
          \<and> \<not> earlier_in_fetch_order api_id (first # rest) (api_id first) stored)
   \<and> (dict_get (state t) account = Some stored
      \<longrightarrow> (\<exists>new. dict_get (state (fst (snd (run cycles (t, v))))) account = Some new))"
proof -
  have web_scan: "last_id_file (main_after_fetch post username last_seen_id (newest # older) w)
     = Some (tweet_id newest)"
    by (simp add: main_after_fetch_last_id)
  have web_step: "last_id_file w' = Some (tweet_id newest)"
    if "main py post username (newest # older) w = Inr w'"
    using that by (rule main_last_id)
  have web_seq: "\<exists>new. last_id_file (main_runs py post username (before @ [page]) w) = Some new
                \<and> \<not> earlier_in_fetch_order tweet_id page new old"
    if old: "last_id_file (main_runs py post username before w) = Some old"
  proof -
    let ?prev = "main_runs py post username before w"
    show ?thesis
    proof (cases "main py post username page ?prev")
      case (Inl e)
      then show ?thesis
        using old by (simp add: main_runs_append not_earlier_self)
    next
      case (Inr w')
      show ?thesis
      proof (cases page)
        case Nil
        with Inr have "w' = ?prev"
          by (auto dest!: main_returned simp: main_after_fetch_def)
        with Inr Nil old show ?thesis
          by (simp add: main_runs_append not_earlier_empty)
      next
        case (Cons top below)
        with Inr have "last_id_file w' = Some (tweet_id top)"
          by (simp add: main_last_id)
        with Inr Cons show ?thesis
          by (simp add: main_runs_append not_earlier_than_head)
      qed
    qed
  qed
  have api_step: "dict_get (state (fst (snd (check_account api account (t, v))))) account
              = Some (api_id first)
          \<and> \<not> earlier_in_fetch_order api_id (first # rest) (api_id first) stored"
    if "get_user_id api account = Inr user_id"
      and "fetch_latest_tweets api user_id (dict_get (state t) account) = Inr (first # rest)"
    using check_account_fetched[OF that] by (simp add: dict_get_def not_earlier_than_head)
  have api_seq: "\<exists>new. dict_get (state (fst (snd (run cycles (t, v))))) account = Some new"
    if "dict_get (state t) account = Some stored"
  proof -
    obtain r t' v' where "run cycles (t, v) = (r, t', v')"
      by (cases "run cycles (t, v)") auto
    from run_present[OF this that] this show ?thesis by simp
  qed
  show ?thesis using web_scan web_step web_seq api_step api_seq by blast
qed

theorem watermark_set_to_newest_witness:
  "main plain_text telegram_up ''user'' [sample_tweet ''c'', sample_tweet ''b'']
       (web_start (Some ''c''))
     = Inr \<lparr>last_id_file = Some ''c'', requests = [], delivered = []\<rparr>
   \<and> last_id_file (main_runs plain_text telegram_up ''user'' [[sample_tweet ''c'', sample_tweet ''b'']]
       (web_start (Some ''b''))) = Some ''c''
   \<and> last_id_file (main_runs plain_text telegram_up ''user''
       ([[sample_tweet ''c'', sample_tweet ''b'']] @ [[sample_tweet ''d'', sample_tweet ''c'']])
       (web_start (Some ''b''))) = Some ''d''
   \<and> \<not> earlier_in_fetch_order tweet_id [sample_tweet ''d'', sample_tweet ''c''] ''d'' ''c''
   \<and> get_user_id all_up ''user'' = Inr ''id-of-user''
   \<and> fetch_latest_tweets all_up ''id-of-user'' (dict_get (state (fresh_tracker [''user''])) ''user'')
       = Inr [sample_api_tweet ''c'', sample_api_tweet ''b'', sample_api_tweet ''a'']
   \<and> dict_get (state (fst (snd (check_account all_up ''user''
         (fresh_tracker [''user''], start_world Missing))))) ''user'' = Some ''c''
   \<and> dict_get (state snapshot_tracker) ''acct1'' = Some ''100''
   \<and> dict_get (state (fst (snd (run [all_up, all_up] (snapshot_tracker, start_world Missing)))))
         ''acct1'' = Some ''100''"
  using watermark_set_to_newest [where post = telegram_up and username = "''user''"
      and py = plain_text and last_seen_id = "Some ''c''"
      and newest = "sample_tweet ''c''" and older = "[sample_tweet ''b'']"
      and w' = "\<lparr>last_id_file = Some ''c'', requests = [], delivered = []\<rparr>"
      and w = "web_start (Some ''b'')" and before = "[[sample_tweet ''c'', sample_tweet ''b'']]"
      and old = "''c''" and page = "[sample_tweet ''d'', sample_tweet ''c'']"
      and api = all_up and account = "''user''" and user_id = "''id-of-user''"
      and t = "fresh_tracker [''user'']" and first = "sample_api_tweet ''c''"
      and rest = "[sample_api_tweet ''b'', sample_api_tweet ''a'']" and v = "start_world Missing"]
    watermark_set_to_newest [where post = telegram_up and username = "''user''"
      and py = plain_text and last_seen_id = "Some ''c''"
      and newest = "sample_tweet ''c''" and older = "[sample_tweet ''b'']"
      and w' = "\<lparr>last_id_file = Some ''c'', requests = [], delivered = []\<rparr>"
      and w = "web_start (Some ''c'')" and before = "[]"
      and api = all_up and account = "''acct1''"
      and t = snapshot_tracker and v = "start_world Missing"
      and stored = "''100''" and cycles = "[all_up, all_up]"]
  by (simp add: main_def main_after_fetch_def read_last_id_def plain_text_def
      web_start_def write_last_id_def sample_tweet_def send_to_telegram_def telegram_up_def
      earlier_in_fetch_order_def all_up_def fetch_latest_tweets_def fresh_tracker_def
      dict_get_def sample_api_tweet_def snapshot_tracker_def check_once_def check_account_def
      notify_def start_world_def persist_state_def json_dump_def open_for_writing_def
      mkdir_parents_def Let_def)

text \<open>
  A watermark that never moves backward over every sequence of cycles does not hold.
  The page-scraping tracker fetches c, b and stores c; the next run fetches b alone (c is
  gone from the profile) and stores b, which the first fetch listed after c.
\<close>

theorem watermark_moves_back_counterexample:
  "last_id_file (main_runs plain_text telegram_up ''user''
       [[sample_tweet ''c'', sample_tweet ''b'']] (web_start None)) = Some ''c''
   \<and> last_id_file (main_runs plain_text telegram_up ''user''
       [[sample_tweet ''c'', sample_tweet ''b''], [sample_tweet ''b'']] (web_start None)) = Some ''b''
   \<and> earlier_in_fetch_order tweet_id [sample_tweet ''c'', sample_tweet ''b''] ''b'' ''c''"
  by (simp add: main_def main_after_fetch_def read_last_id_def plain_text_def web_start_def
      write_last_id_def sample_tweet_def send_to_telegram_def telegram_up_def
      earlier_in_fetch_order_def)

text \<open>
  C5.  First run, on a page c, b, a (any page with a newest tweet).  The page-scraping
  tracker with no last seen id posts nothing and writes the id of the newest tweet.  The
  API tracker with no stored id for the account, where the account resolves, the tweets
  endpoint answers the page and the notifier raises nothing, passes every tweet of the
  page to the notifier, oldest first, and stores the id of the newest tweet.
\<close>

theorem first_run_policy:
  "main_after_fetch post username None (newest # older) w
     = w\<lparr>last_id_file := Some (tweet_id newest)\<rparr>
   \<and> requests (main_after_fetch post username None (newest # older) w) = requests w
   \<and> (dict_get (state t) account = None \<and> get_user_id api account = Inr user_id
        \<and> user_tweets api user_id None = Inr (first # rest)
        \<and> (\<forall>k m. send_message api k m = None)
      \<longrightarrow> check_account api account (t, v)
            = (None, t\<lparr>state := (state t)(account \<mapsto> Some (api_id first))\<rparr>,
               v\<lparr>outbox := outbox v @ map (format_message account) (rev (first # rest))\<rparr>))"
proof -
  have web: "main_after_fetch post username None (newest # older) w
     = w\<lparr>last_id_file := Some (tweet_id newest)\<rparr>"
    by (simp add: main_after_fetch_def write_last_id_def)
  have api: "check_account api account (t, v)
            = (None, t\<lparr>state := (state t)(account \<mapsto> Some (api_id first))\<rparr>,
               v\<lparr>outbox := outbox v @ map (format_message account) (rev (first # rest))\<rparr>)"
    if absent: "dict_get (state t) account = None" and uid: "get_user_id api account = Inr user_id"
      and page: "user_tweets api user_id None = Inr (first # rest)"
      and up: "\<forall>k m. send_message api k m = None"
  proof -
    have "fetch_latest_tweets api user_id (dict_get (state t) account) = Inr (first # rest)"
      using absent page by (simp add: fetch_latest_tweets_def)
    from check_account_fetched[OF uid this] show ?thesis
      using up by (simp add: notify_def notify_each_all_sent del: notify_each.simps)
  qed
  show ?thesis using web api by simp
qed

theorem first_run_policy_witness:
  "main_after_fetch telegram_up ''user'' None
       [sample_tweet ''c'', sample_tweet ''b'', sample_tweet ''a''] (web_start None)
     = \<lparr>last_id_file = Some ''c'', requests = [], delivered = []\<rparr>
   \<and> dict_get (state (fresh_tracker [''user''])) ''user'' = None
   \<and> get_user_id all_up ''user'' = Inr ''id-of-user''
   \<and> user_tweets all_up ''id-of-user'' None
       = Inr [sample_api_tweet ''c'', sample_api_tweet ''b'', sample_api_tweet ''a'']
   \<and> check_account all_up ''user'' (fresh_tracker [''user''], start_world Missing)
       = (None,
          (fresh_tracker [''user''])\<lparr>state := (state (fresh_tracker [''user'']))(''user'' \<mapsto> Some ''c'')\<rparr>,
          (start_world Missing)\<lparr>outbox :=
             [format_message ''user'' (sample_api_tweet ''a''),
              format_message ''user'' (sample_api_tweet ''b''),
              format_message ''user'' (sample_api_tweet ''c'')]\<rparr>)"
  using first_run_policy [where post = telegram_up and username = "''user''"
      and newest = "sample_tweet ''c''" and older = "[sample_tweet ''b'', sample_tweet ''a'']"
      and w = "web_start None" and t = "fresh_tracker [''user'']" and account = "''user''"
      and api = all_up and user_id = "''id-of-user''" and first = "sample_api_tweet ''c''"
      and rest = "[sample_api_tweet ''b'', sample_api_tweet ''a'']" and v = "start_world Missing"]
  by (simp add: web_start_def sample_tweet_def all_up_def fresh_tracker_def dict_get_def
      start_world_def sample_api_tweet_def)

text \<open>
  C6.  Order of notification, for a page none of whose tweets was seen before.  The
  page-scraping tracker, holding a last seen id that no tweet of the page carries, posts
  the whole page oldest first, a, b, c for the page c, b, a, one POST per tweet.  The API
  tracker, whose page holds new tweets only, passes the whole page oldest first to a
  notifier that raises nothing, one call per tweet; whatever the notifier does, the
  messages passed are an initial part of that sequence.
\<close>

theorem notification_order:
  "(seen \<notin> tweet_id ` set tweets
      \<longrightarrow> requests (main_after_fetch post username (Some seen) tweets w)
            = requests w @ map (message username) (rev tweets))
   \<and> ((\<forall>k m. send_message api k m = None)
      \<longrightarrow> notify api account fetched v
            = (None, v\<lparr>outbox := outbox v @ map (format_message account) (rev fetched)\<rparr>))
   \<and> (\<exists>n. outbox (snd (notify api account fetched v))
            = outbox v @ take n (map (format_message account) (rev fetched)))"
proof -
  have web: "requests (main_after_fetch post username (Some seen) tweets w)
            = requests w @ map (message username) (rev tweets)"
    if "seen \<notin> tweet_id ` set tweets"
  proof -
    from that have whole: "takeWhile (\<lambda>tw. tweet_id tw \<noteq> seen) tweets = tweets"
      by (auto intro: takeWhile_eq_all_conv[THEN iffD2])
    show ?thesis by (simp add: main_after_fetch_requests collect_new_takeWhile whole)
  qed
  have all: "notify api account fetched v
            = (None, v\<lparr>outbox := outbox v @ map (format_message account) (rev fetched)\<rparr>)"
    if "\<forall>k m. send_message api k m = None"
    using that by (simp add: notify_def notify_each_all_sent rev_map)
  have prefix: "\<exists>n. outbox (snd (notify api account fetched v))
            = outbox v @ take n (map (format_message account) (rev fetched))"
  proof -
    obtain r v' where n: "notify_each api account (rev fetched) v = (r, v')"
      by (cases "notify_each api account (rev fetched) v") auto
    from notify_each_world[OF n] show ?thesis by (simp add: notify_def n)
  qed
  show ?thesis using web all prefix by blast
qed

theorem notification_order_witness:
  "''z'' \<notin> tweet_id ` set [sample_tweet ''c'', sample_tweet ''b'', sample_tweet ''a'']
   \<and> requests (main_after_fetch telegram_up ''user'' (Some ''z'')
         [sample_tweet ''c'', sample_tweet ''b'', sample_tweet ''a''] (web_start (Some ''z'')))
       = [message ''user'' (sample_tweet ''a''), message ''user'' (sample_tweet ''b''),
          message ''user'' (sample_tweet ''c'')]
   \<and> notify all_up ''user''
         [sample_api_tweet ''c'', sample_api_tweet ''b'', sample_api_tweet ''a''] (start_world Missing)
       = (None, (start_world Missing)\<lparr>outbox :=
             [format_message ''user'' (sample_api_tweet ''a''),
              format_message ''user'' (sample_api_tweet ''b''),
              format_message ''user'' (sample_api_tweet ''c'')]\<rparr>)"
  using notification_order [where seen = "''z''"
      and tweets = "[sample_tweet ''c'', sample_tweet ''b'', sample_tweet ''a'']"
      and post = telegram_up and username = "''user''" and w = "web_start (Some ''z'')"
      and api = all_up and account = "''user''"
      and fetched = "[sample_api_tweet ''c'', sample_api_tweet ''b'', sample_api_tweet ''a'']"
      and v = "start_world Missing"]
  by (simp add: web_start_def sample_tweet_def all_up_def start_world_def)

text \<open>
  C7.  A second pass over the same page, started from the result of the first pass with
  the watermark the first pass left (the id it wrote, or the watermark it started with
  when the page was empty and nothing was written), finds no new tweet: the scan stops
  at the first tweet of the page, nothing is posted and nothing changes.  The next run
  of the script gets its watermark from \<^verbatim>\<open>read_last_id\<close>; this statement is about
  the scan fed the watermark of the first pass itself.
\<close>

theorem noop_cycle:
  "main_after_fetch second_post username
     (case tweets of [] \<Rightarrow> watermark
      | newest # older \<Rightarrow> last_id_file (main_after_fetch first_post username watermark tweets w))
     tweets (main_after_fetch first_post username watermark tweets w)
   = main_after_fetch first_post username watermark tweets w
   \<and> collect_new (tweet_id head) (head # below) [] = []"
proof (cases tweets)
  case Nil
  then show ?thesis by (simp add: main_after_fetch_def)
next
  case (Cons newest older)
  let ?w1 = "main_after_fetch first_post username watermark tweets w"
  have f: "last_id_file ?w1 = Some (tweet_id newest)"
    by (simp add: main_after_fetch_last_id Cons)
  have "main_after_fetch second_post username (Some (tweet_id newest)) (newest # older) ?w1
        = ?w1\<lparr>last_id_file := Some (tweet_id newest)\<rparr>"
    by (simp add: main_after_fetch_def write_last_id_def)
  also have "\<dots> = ?w1" using f by simp
  finally show ?thesis using f Cons by simp
qed

theorem noop_cycle_witness:
  "main_after_fetch telegram_down ''user'' (Some ''c'')
     [sample_tweet ''c'', sample_tweet ''b'', sample_tweet ''a'']
     (main_after_fetch telegram_up ''user'' (Some ''z'')
        [sample_tweet ''c'', sample_tweet ''b'', sample_tweet ''a''] (web_start (Some ''z'')))
   = \<lparr>last_id_file = Some ''c'',
      requests = [message ''user'' (sample_tweet ''a''), message ''user'' (sample_tweet ''b''),
                  message ''user'' (sample_tweet ''c'')],
      delivered = [message ''user'' (sample_tweet ''a''), message ''user'' (sample_tweet ''b''),
                   message ''user'' (sample_tweet ''c'')]\<rparr>"
  using noop_cycle [where second_post = telegram_down and username = "''user''"
      and tweets = "[sample_tweet ''c'', sample_tweet ''b'', sample_tweet ''a'']"
      and watermark = "Some ''z''" and first_post = telegram_up and w = "web_start (Some ''z'')"]
  by (simp add: main_after_fetch_def write_last_id_def send_to_telegram_def telegram_up_def
      sample_tweet_def web_start_def)

text \<open>
  C8.  Saving the snapshot of a tracker and constructing a tracker for the same accounts
  from the saved file gives the same mapping, and the same tracker.  The keys of the
  mapping of a tracker are its accounts; the snapshot acct1: "100", acct2: null is
  the example.
\<close>

theorem state_round_trip:
  "dom (state t) = set (accounts t)
     \<longrightarrow> load_state (accounts t) (persist_state t w) = Inr (state t)
         \<and> new_tracker (accounts t) (persist_state t w) = Inr t"
proof
  assume keys: "dom (state t) = set (accounts t)"
  have loaded: "load_state (accounts t) (persist_state t w) = Inr (state t)"
    by (simp add: load_state_def dict_of_roundtrip[OF keys])
  then show "load_state (accounts t) (persist_state t w) = Inr (state t)
         \<and> new_tracker (accounts t) (persist_state t w) = Inr t"
    by (simp add: new_tracker_def)
qed

theorem state_round_trip_witness:
  "dom (state snapshot_tracker) = set (accounts snapshot_tracker)
   \<and> load_state [''acct1'', ''acct2''] (persist_state snapshot_tracker (start_world Missing))
       = Inr [''acct1'' \<mapsto> Some ''100'', ''acct2'' \<mapsto> None]
   \<and> new_tracker [''acct1'', ''acct2''] (persist_state snapshot_tracker (start_world Missing))
       = Inr snapshot_tracker"
proof -
  have keys: "dom (state snapshot_tracker) = set (accounts snapshot_tracker)"
    by (auto simp: snapshot_tracker_def)
  have named: "accounts snapshot_tracker = [''acct1'', ''acct2'']"
    "state snapshot_tracker = [''acct1'' \<mapsto> Some ''100'', ''acct2'' \<mapsto> None]"
    by (simp_all add: snapshot_tracker_def)
  from state_round_trip [where t = snapshot_tracker and w = "start_world Missing"] keys
  have "load_state (accounts snapshot_tracker) (persist_state snapshot_tracker (start_world Missing))
          = Inr (state snapshot_tracker)
        \<and> new_tracker (accounts snapshot_tracker) (persist_state snapshot_tracker (start_world Missing))
          = Inr snapshot_tracker"
    by blast
  with keys show ?thesis by (simp only: named)
qed




text \<open>
  C10. In the API tracker the keys of the in-memory state are the configured accounts
  after construction and after every \<^verbatim>\<open>check_once\<close>, whether it
  raises or not, hence after any number of cycles of \<^verbatim>\<open>run\<close>. An
  entry of the state file for an account that is not configured is not loaded, and the
  file written at the end of the next completed cycle is the in-memory state, which has
  no entry for that account.
\<close>

theorem state_keys_are_accounts:
  "(new_tracker accs w = Inr t \<longrightarrow> accounts t = accs \<and> dom (state t) = set accs)
   \<and> (dom (state t0) = set (accounts t0) \<and> check_once api (t0, w0) = (r, t1, w1)
      \<longrightarrow> accounts t1 = accounts t0 \<and> dom (state t1) = set (accounts t1))
   \<and> (new_tracker accs w = Inr t \<and> run cycles (t, w) = (r', t2, w2)
      \<longrightarrow> accounts t2 = accs \<and> dom (state t2) = set accs)
   \<and> (new_tracker accs w = Inr t \<and> check_once api (t, w) = (None, t', w') \<and> a \<notin> set accs
      \<longrightarrow> state t a = None \<and> state t' a = None \<and> disk w' = Stored (state t'))"
proof -
  have built: "accounts t = accs \<and> dom (state t) = set accs" if "new_tracker accs w = Inr t"
    using that by (rule new_tracker_keys)
  have kept: "accounts t1 = accounts t0 \<and> dom (state t1) = set (accounts t1)"
    if "dom (state t0) = set (accounts t0)" and "check_once api (t0, w0) = (r, t1, w1)"
    using that(2,1) by (rule check_once_keys)
  have always: "accounts t2 = accs \<and> dom (state t2) = set accs"
    if new: "new_tracker accs w = Inr t" and cycles: "run cycles (t, w) = (r', t2, w2)"
  proof -
    from new_tracker_keys[OF new] have k: "accounts t = accs" "dom (state t) = set accs" by simp_all
    from run_keys[OF cycles] k show ?thesis by simp
  qed
  have dropped: "state t a = None \<and> state t' a = None \<and> disk w' = Stored (state t')"
    if new: "new_tracker accs w = Inr t" and cycle: "check_once api (t, w) = (None, t', w')"
      and out: "a \<notin> set accs"
  proof -
    from new_tracker_keys[OF new] have k: "accounts t = accs" "dom (state t) = set accs" by simp_all
    from check_once_keys[OF cycle] k have k': "dom (state t') = set accs" by simp
    from check_once_cases[OF cycle] have "disk w' = Stored (state t')" by auto
    with k k' out show ?thesis by (auto simp: domIff)
  qed
  show ?thesis using built kept always dropped by blast
qed

theorem state_keys_are_accounts_witness:
  "new_tracker [''user''] stale_world = Inr \<lparr>accounts = [''user''], state = [''user'' \<mapsto> Some ''5'']\<rparr>
   \<and> dom [''user'' \<mapsto> Some ''5''] = set [''user'']
   \<and> check_once all_up (\<lparr>accounts = [''user''], state = [''user'' \<mapsto> Some ''5'']\<rparr>, stale_world)
       = (None, \<lparr>accounts = [''user''], state = [''user'' \<mapsto> Some ''5'']\<rparr>,
          persist_state \<lparr>accounts = [''user''], state = [''user'' \<mapsto> Some ''5'']\<rparr> stale_world)
   \<and> ''gone'' \<notin> set [''user'']
   \<and> disk stale_world = Stored [''gone'' \<mapsto> Some ''7'', ''user'' \<mapsto> Some ''5'']
   \<and> disk (persist_state \<lparr>accounts = [''user''], state = [''user'' \<mapsto> Some ''5'']\<rparr> stale_world)
       = Stored [''user'' \<mapsto> Some ''5'']
   \<and> dom (state (fst (snd (run [all_up, all_up]
         (\<lparr>accounts = [''user''], state = [''user'' \<mapsto> Some ''5'']\<rparr>, stale_world)))))
       = set [''user'']"
proof -
  let ?t = "\<lparr>accounts = [''user''], state = [''user'' \<mapsto> Some ''5'']\<rparr>"
  let ?saved = "persist_state ?t stale_world"
  let ?end = "run [all_up, all_up] (?t, stale_world)"
  have new: "new_tracker [''user''] stale_world = Inr ?t"
    by (simp add: new_tracker_def load_state_def stale_world_def start_world_def dict_get_def)
  have cycle: "check_once all_up (?t, stale_world) = (None, ?t, ?saved)"
    by (simp add: check_once_def check_account_def all_up_def fetch_latest_tweets_def dict_get_def)
  have out: "''gone'' \<notin> set [''user'']"
    by simp
  have ends: "?end = (fst ?end, fst (snd ?end), snd (snd ?end))"
    by simp
  note claim = state_keys_are_accounts [where accs = "[''user'']" and w = stale_world
      and t = ?t and ?t0.0 = ?t and ?w0.0 = stale_world and api = all_up and r = None
      and ?t1.0 = ?t and ?w1.0 = ?saved and t' = ?t and w' = ?saved and a = "''gone''"
      and cycles = "[all_up, all_up]" and r' = "fst ?end" and ?t2.0 = "fst (snd ?end)"
      and ?w2.0 = "snd (snd ?end)"]
  from claim new cycle out have "disk ?saved = Stored (state ?t)"
    by blast
  moreover from claim new ends have "dom (state (fst (snd ?end))) = set [''user'']"
    by blast
  moreover have "disk stale_world = Stored [''gone'' \<mapsto> Some ''7'', ''user'' \<mapsto> Some ''5'']"
    by (simp add: stale_world_def start_world_def)
  ultimately show ?thesis using new cycle by simp
qed

end
